theory Spec2Isabelle
  imports Complex_Main "HOL-Library.Log_Nat"
begin

section \<open>QuizMaster: the quiz session, the results view and the dashboard\<close>

text \<open>
  The development embeds the logic of three React components:
  \<^item> \<open>QuizInterface\<close> (the quiz session: countdown, navigation, answer map, submission),
  \<^item> \<open>QuizResults\<close> (percentage, grade, average time, the three sequential fetches),
  \<^item> \<open>Dashboard\<close> (aggregate statistics and the per-quiz values of a quiz card).

  Component state (\<open>useState\<close>) is a record; an event handler is a function from the
  state to the next state; an \<open>await\<close> splits a handler into the part before the
  backend call and the part that runs when the call resolves. A backend call returns
  \<open>Inl message\<close> for \<open>{ error }\<close> and \<open>Inr data\<close> otherwise.
\<close>

section \<open>The model\<close>

subsection \<open>JavaScript numbers\<close>

text \<open>
  Integer-valued numbers (counters, indices, array lengths, the integer columns of the
  database, millisecond clocks) are \<open>int\<close>: sums and differences of integers are exact
  in a double below \<open>2^53\<close>. A quotient is not an integer in general, so the results of
  \<open>/\<close> and of the following \<open>*\<close> are IEEE 754 doubles: a rational (the exact value of
  the double), or one of the three special values.

  \<open>fl\<close> rounds a rational to the nearest double, ties to the even significand, with a
  significand of 53 bits; the exponent range is not limited, which is exact for every
  value between \<open>2^-1022\<close> and \<open>2^1023\<close> in magnitude (the quotients and products of
  32-bit database integers are far inside). \<open>expo x\<close> is the binary exponent of a
  positive \<open>x\<close>: \<open>2^(expo x) \<le> x < 2^(expo x + 1)\<close>.
\<close>

datatype jsnum = Fin rat | PosInf | NegInf | NaN

definition expo :: "rat \<Rightarrow> int" where
  "expo x = (let (p, q) = quotient_of x; d = bitlen p - bitlen q
             in if 2 powi d \<le> x then d else d - 1)"

definition round_half_even :: "rat \<Rightarrow> int" where
  "round_half_even m =
     (let n = \<lfloor>m\<rfloor>; r = m - of_int n
      in if r < 1 / 2 then n else if 1 / 2 < r then n + 1 else if even n then n else n + 1)"

definition fl :: "rat \<Rightarrow> rat" where
  "fl x = (if x = 0 then 0
           else let u = 2 powi (expo \<bar>x\<bar> - 52)
                in sgn x * of_int (round_half_even (\<bar>x\<bar> / u)) * u)"

text \<open>
  \<open>a / b\<close> on two integer-valued numbers (a zero divisor is \<open>+0\<close>: lengths and
  database integers have no negative zero).
\<close>

definition js_div :: "int \<Rightarrow> int \<Rightarrow> jsnum" where
  "js_div a b =
     (if b = 0 then (if a = 0 then NaN else if 0 < a then PosInf else NegInf)
      else Fin (fl (of_int a / of_int b)))"

text \<open>\<open>x * 100\<close>.\<close>

fun js_mul100 :: "jsnum \<Rightarrow> jsnum" where
  "js_mul100 (Fin x) = Fin (fl (x * 100))"
| "js_mul100 PosInf = PosInf"
| "js_mul100 NegInf = NegInf"
| "js_mul100 NaN = NaN"

text \<open>
  \<open>Math.round\<close> returns the integer closest to its argument, the larger one at a tie;
  it is computed exactly. \<open>Math.max\<close> of no argument is \<open>-Infinity\<close>, and \<open>NaN\<close> if an
  argument is \<open>NaN\<close>. A comparison with \<open>NaN\<close> is false.
\<close>

fun Math_round :: "jsnum \<Rightarrow> jsnum" where
  "Math_round (Fin x) = Fin (of_int \<lfloor>x + 1 / 2\<rfloor>)"
| "Math_round PosInf = PosInf"
| "Math_round NegInf = NegInf"
| "Math_round NaN = NaN"

fun js_max :: "jsnum \<Rightarrow> jsnum \<Rightarrow> jsnum" where
  "js_max NaN y = NaN"
| "js_max x NaN = NaN"
| "js_max PosInf y = PosInf"
| "js_max x PosInf = PosInf"
| "js_max NegInf y = y"
| "js_max x NegInf = x"
| "js_max (Fin a) (Fin b) = Fin (max a b)"

definition Math_max :: "jsnum list \<Rightarrow> jsnum" where
  "Math_max xs = foldl js_max NegInf xs"

fun js_ge :: "jsnum \<Rightarrow> rat \<Rightarrow> bool" where
  "js_ge (Fin x) c = (c \<le> x)"
| "js_ge PosInf c = True"
| "js_ge NegInf c = False"
| "js_ge NaN c = False"

subsection \<open>Rows of the three tables\<close>

text \<open>
  The fields that the logic reads. The texts of a question and of its four options, and
  the description of a quiz, are only rendered. \<open>QuizAttempt\<close> is the interface of
  the dashboard; \<open>attempt_row\<close> adds the other columns that \<open>handleSubmit\<close> inserts
  (\<open>answers_col\<close> is the column \<open>answers\<close>, \<open>completed_at\<close> the clock in milliseconds
  that \<open>toISOString\<close> prints).
\<close>

record Question =
  id_question :: string
  correct_answer :: string

record Quiz =
  id_quiz :: string
  title :: string
  duration_minutes :: int

record QuizAttempt =
  quiz_id :: string
  score :: int
  total_questions :: int
  time_taken_seconds :: int

record attempt_row = QuizAttempt +
  user_id :: string
  answers_col :: "string \<rightharpoonup> string"
  completed_at :: int

subsection \<open>QuizInterface: the state of a session\<close>

text \<open>
  The eight \<open>useState\<close> cells of the component, its two inputs (\<open>user\<close> from the
  authentication context, the property \<open>quizId\<close>), and what the component has sent out:
  \<^item> \<open>in_flight\<close>: the inserts awaiting their answer;
  \<^item> \<open>issued\<close>: every insert request sent, in order;
  \<^item> \<open>table\<close>: the rows that the backend accepted;
  \<^item> \<open>console\<close>: the messages of \<open>console.error\<close>;
  \<^item> \<open>completed\<close>: the arguments of the call of \<open>onComplete\<close>, after which the parent
    replaces the session screen by the results screen.
\<close>

record session =
  user :: "string option"
  quizId :: string
  quiz :: "Quiz option"
  questions :: "Question list"
  currentQuestionIndex :: int
  answers :: "string \<rightharpoonup> string"
  timeLeft :: int
  loading :: bool
  submitting :: bool
  startTime :: int
  in_flight :: "attempt_row list"
  issued :: "attempt_row list"
  table :: "attempt_row list"
  console :: "string list"
  completed :: "(int \<times> int \<times> int) option"

text \<open>The state at mount: the initial values of the \<open>useState\<close> calls, at clock \<open>t0\<close>.\<close>

definition mount :: "string option \<Rightarrow> string \<Rightarrow> int \<Rightarrow> session" where
  "mount u qz t0 =
     \<lparr>user = u, quizId = qz, quiz = None, questions = [], currentQuestionIndex = 0,
      answers = Map.empty, timeLeft = 0, loading = True, submitting = False,
      startTime = t0, in_flight = [], issued = [], table = [], console = [],
      completed = None\<rparr>"

text \<open>
  \<open>fetchQuizData\<close>, from the answers of its two queries. The second query is sent only
  when the first one succeeded. The three \<open>set\<close> calls of the success path are applied
  in one render (they are batched).
\<close>

definition fetchQuizData :: "string + Quiz \<Rightarrow> string + Question list \<Rightarrow> session \<Rightarrow> session" where
  "fetchQuizData quizResult questionsResult s =
     (case quizResult of
        Inl quizError \<Rightarrow>
          s\<lparr>console := console s @ [''Error fetching quiz data:''], loading := False\<rparr>
      | Inr quizData \<Rightarrow>
          (case questionsResult of
             Inl questionsError \<Rightarrow>
               s\<lparr>console := console s @ [''Error fetching quiz data:''], loading := False\<rparr>
           | Inr questionsData \<Rightarrow>
               s\<lparr>quiz := Some quizData, questions := questionsData,
                 timeLeft := duration_minutes quizData * 60, loading := False\<rparr>))"

definition handleAnswerSelect :: "string \<Rightarrow> string \<Rightarrow> session \<Rightarrow> session" where
  "handleAnswerSelect questionId answer s = s\<lparr>answers := (answers s)(questionId \<mapsto> answer)\<rparr>"

text \<open>
  The \<open>forEach\<close> of \<open>handleSubmit\<close>, on the pair of \<open>score\<close> and \<open>userAnswers\<close>.
  \<open>answers[question.id]\<close> is \<open>undefined\<close> (\<open>None\<close>) for a question without a selection;
  \<open>userAnswer || ''\<close> is the empty string for \<open>undefined\<close> and for the empty string.
\<close>

definition or_empty :: "string option \<Rightarrow> string" where
  "or_empty userAnswer =
     (case userAnswer of None \<Rightarrow> [] | Some v \<Rightarrow> (if v = [] then [] else v))"

fun score_answers ::
  "(string \<rightharpoonup> string) \<Rightarrow> Question list \<Rightarrow> int \<times> (string \<rightharpoonup> string) \<Rightarrow> int \<times> (string \<rightharpoonup> string)" where
  "score_answers A [] acc = acc"
| "score_answers A (question # rest) (sc, userAnswers) =
     score_answers A rest
       (if A (id_question question) = Some (correct_answer question) then sc + 1 else sc,
        userAnswers(id_question question \<mapsto> or_empty (A (id_question question))))"

text \<open>
  The row that \<open>handleSubmit\<close> builds at clock \<open>now\<close>. \<open>timeTaken\<close> is
  \<open>Math.floor((Date.now() - startTime) / 1000)\<close>: the floor of a double.
\<close>

definition submission :: "int \<Rightarrow> session \<Rightarrow> attempt_row" where
  "submission now s =
     (let (sc, userAnswers) = score_answers (answers s) (questions s) (0, Map.empty);
          timeTaken = \<lfloor>fl (of_int (now - startTime s) / 1000)\<rfloor>
      in \<lparr>quiz_id = quizId s, score = sc, total_questions = int (length (questions s)),
          time_taken_seconds = timeTaken, user_id = the (user s), answers_col = userAnswers,
          completed_at = now\<rparr>)"

text \<open>
  \<open>handleSubmit\<close> up to its \<open>await\<close>: the guard, \<open>setSubmitting(true)\<close>, and the insert
  request. (\<open>the (user s)\<close> is read only past the guard \<open>!user\<close>.)
\<close>

definition handleSubmit :: "int \<Rightarrow> session \<Rightarrow> session" where
  "handleSubmit now s =
     (if submitting s \<or> quiz s = None \<or> user s = None then s
      else s\<lparr>submitting := True,
             in_flight := in_flight s @ [submission now s],
             issued := issued s @ [submission now s]\<rparr>)"

text \<open>
  \<open>handleSubmit\<close> from its \<open>await\<close> on, when the oldest insert in flight is answered:
  \<open>onComplete\<close> on success, \<open>console.error\<close> in the \<open>catch\<close>, and in both cases the
  \<open>finally\<close> block \<open>setSubmitting(false)\<close>.
\<close>

definition insert_resolved :: "string option \<Rightarrow> session \<Rightarrow> session" where
  "insert_resolved error s =
     (case in_flight s of
        [] \<Rightarrow> s
      | row # rest \<Rightarrow>
          (case error of
             None \<Rightarrow>
               s\<lparr>in_flight := rest, table := table s @ [row],
                 completed := Some (score row, total_questions row, time_taken_seconds row),
                 submitting := False\<rparr>
           | Some e \<Rightarrow>
               s\<lparr>in_flight := rest, console := console s @ [''Error submitting quiz:''],
                 submitting := False\<rparr>))"

text \<open>
  The body of the countdown effect, which runs after a render that changed \<open>timeLeft\<close>
  or \<open>quiz\<close>. With \<open>timeLeft > 0\<close> it starts the one-second timer, whose expiry is the
  event \<open>Tick\<close> below; at zero, with the quiz loaded, it calls \<open>handleSubmit\<close>.
\<close>

definition countdown_effect :: "int \<Rightarrow> session \<Rightarrow> session" where
  "countdown_effect now s =
     (if 0 < timeLeft s then s
      else if timeLeft s = 0 \<and> quiz s \<noteq> None then handleSubmit now s
      else s)"

subsection \<open>QuizInterface: navigation\<close>

text \<open>
  The three navigation controls of the session screen, with \<open>n = questions.length\<close>:
  \<^item> Previous: \<open>setCurrentQuestionIndex(Math.max(0, currentQuestionIndex - 1))\<close>;
  \<^item> Next: \<open>setCurrentQuestionIndex(Math.min(questions.length - 1, currentQuestionIndex + 1))\<close>;
  \<^item> one numbered button per element of \<open>questions.map((_, index) => ...)\<close>, with
    \<open>setCurrentQuestionIndex(index)\<close>.
  A numbered button exists only for an index of the question array, so a jump to another
  index is not an action of the screen: \<open>nav_step\<close> returns \<open>None\<close> for it.
\<close>

datatype nav = Previous | Next | Jump int

fun nav_step :: "int \<Rightarrow> int \<Rightarrow> nav \<Rightarrow> int option" where
  "nav_step n i Previous = Some (max 0 (i - 1))"
| "nav_step n i Next = Some (min (n - 1) (i + 1))"
| "nav_step n i (Jump k) = (if 0 \<le> k \<and> k < n then Some k else None)"

fun nav_run :: "int \<Rightarrow> int \<Rightarrow> nav list \<Rightarrow> int option" where
  "nav_run n i [] = Some i"
| "nav_run n i (a # as) =
     (case nav_step n i a of None \<Rightarrow> None | Some j \<Rightarrow> nav_run n j as)"

fun rendered :: "int \<Rightarrow> nav \<Rightarrow> bool" where
  "rendered n (Jump k) = (0 \<le> k \<and> k < n)"
| "rendered n _ = True"

subsection \<open>QuizInterface: the events of a session\<close>

text \<open>
  The events that change the state of a mounted session, each at a clock reading:
  \<^item> \<open>Fetched\<close>: the queries of \<open>fetchQuizData\<close> are answered; the render changes
    \<open>quiz\<close> and \<open>timeLeft\<close>, so the countdown effect runs;
  \<^item> \<open>Tick\<close>: the timer of the countdown effect expires (there is a timer only while
    \<open>timeLeft > 0\<close>): \<open>setTimeLeft(timeLeft - 1)\<close>, then the effect runs again;
  \<^item> \<open>SelectOption\<close>: a click on one of the four options of the current question;
  \<^item> \<open>Navigate\<close>: a click on Previous, Next or a numbered button;
  \<^item> \<open>ClickSubmit\<close>: a click on Submit Quiz, which is rendered on the last question and
    disabled while \<open>submitting\<close>;
  \<^item> \<open>InsertDone\<close>: the backend answers the insert in flight.
  The question screen is rendered when \<open>loading\<close> is false, the quiz is loaded and there
  is a question. Here an event is taken together with the render and the effect that
  follow it: it is handled on the state of the latest render, and the render that it
  causes is complete before the next event (a settled schedule). The schedules in which
  an event falls between a render and its effect, or between a \<open>set\<close> call and its
  render, are those of the finer model below. An event that cannot happen in a state
  leaves it unchanged, and so does every event after \<open>onComplete\<close>, when the component
  is unmounted.
\<close>

datatype event =
    Fetched "string + Quiz" "string + Question list"
  | Tick
  | SelectOption string
  | Navigate nav
  | ClickSubmit
  | InsertDone "string option"

definition screen_shown :: "session \<Rightarrow> bool" where
  "screen_shown s = (\<not> loading s \<and> quiz s \<noteq> None \<and> questions s \<noteq> [])"

fun handle :: "int \<Rightarrow> event \<Rightarrow> session \<Rightarrow> session" where
  "handle now (Fetched quizResult questionsResult) s =
     countdown_effect now (fetchQuizData quizResult questionsResult s)"
| "handle now Tick s =
     (if 0 < timeLeft s then countdown_effect now (s\<lparr>timeLeft := timeLeft s - 1\<rparr>) else s)"
| "handle now (SelectOption key) s =
     (if screen_shown s \<and> key \<in> {''A'', ''B'', ''C'', ''D''}
         \<and> 0 \<le> currentQuestionIndex s \<and> currentQuestionIndex s < int (length (questions s))
      then handleAnswerSelect (id_question (questions s ! nat (currentQuestionIndex s))) key s
      else s)"
| "handle now (Navigate a) s =
     (if screen_shown s
      then (case nav_step (int (length (questions s))) (currentQuestionIndex s) a of
              None \<Rightarrow> s
            | Some j \<Rightarrow> s\<lparr>currentQuestionIndex := j\<rparr>)
      else s)"
| "handle now ClickSubmit s =
     (if screen_shown s \<and> currentQuestionIndex s = int (length (questions s)) - 1
         \<and> \<not> submitting s
      then handleSubmit now s else s)"
| "handle now (InsertDone error) s = insert_resolved error s"

definition step :: "int \<times> event \<Rightarrow> session \<Rightarrow> session" where
  "step e s = (if completed s \<noteq> None then s else handle (fst e) (snd e) s)"

fun run :: "(int \<times> event) list \<Rightarrow> session \<Rightarrow> session" where
  "run [] s = s"
| "run (e # es) s = run es (step e s)"


text \<open>
  The two ways in which the screen calls \<open>handleSubmit\<close>: the click on Submit Quiz (on
  the last question), and the expiry of the timer that takes \<open>timeLeft\<close> from 1 to 0.
\<close>

definition trigger :: "event \<Rightarrow> session \<Rightarrow> bool" where
  "trigger ev s =
     (ev = ClickSubmit \<and> screen_shown s
        \<and> currentQuestionIndex s = int (length (questions s)) - 1
      \<or> ev = Tick \<and> timeLeft s = 1)"

text \<open>Two predicates on events, for the statements below.\<close>

fun nonneg_duration :: "event \<Rightarrow> bool" where
  "nonneg_duration (Fetched (Inr quizData) questionsResult) = (0 \<le> duration_minutes quizData)"
| "nonneg_duration _ = True"


subsection \<open>A session of the specification's scenario\<close>

text \<open>
  A quiz of five questions and twenty minutes. The user answers the first three
  questions correctly, jumps to the last one and leaves the last two blank; 125 seconds
  pass on the countdown.
\<close>

definition demo_questions :: "Question list" where
  "demo_questions =
     [\<lparr>id_question = ''q1'', correct_answer = ''A''\<rparr>,
      \<lparr>id_question = ''q2'', correct_answer = ''B''\<rparr>,
      \<lparr>id_question = ''q3'', correct_answer = ''C''\<rparr>,
      \<lparr>id_question = ''q4'', correct_answer = ''D''\<rparr>,
      \<lparr>id_question = ''q5'', correct_answer = ''A''\<rparr>]"

definition demo_quiz :: Quiz where
  "demo_quiz = \<lparr>id_quiz = ''quiz1'', title = ''Demo'', duration_minutes = 20\<rparr>"

definition demo_events :: "(int \<times> event) list" where
  "demo_events =
     [(1000200, Fetched (Inr demo_quiz) (Inr demo_questions)),
      (1000300, SelectOption ''A''), (1000400, Navigate Next),
      (1000500, SelectOption ''B''), (1000600, Navigate Next),
      (1000700, SelectOption ''C''), (1000800, Navigate (Jump 4))]
     @ map (\<lambda>k. (1000200 + 1000 * int k, Tick)) [1..<126]"

definition demo_session :: session where
  "demo_session = run demo_events (mount (Some ''u1'') ''quiz1'' 1000000)"

text \<open>
  A quiz of one question and one minute: the user clicks Submit Quiz at once, and the
  insert is answered (with an error, or with success) while the countdown runs on.
\<close>

definition short_quiz :: Quiz where
  "short_quiz = \<lparr>id_quiz = ''quiz2'', title = ''Short'', duration_minutes = 1\<rparr>"

definition short_start :: "(int \<times> event) list" where
  "short_start =
     [(200, Fetched (Inr short_quiz) (Inr [\<lparr>id_question = ''q1'', correct_answer = ''A''\<rparr>])),
      (300, SelectOption ''A''),
      (400, ClickSubmit)]"

definition ticks :: "nat \<Rightarrow> (int \<times> event) list" where
  "ticks n = map (\<lambda>k. (200 + 1000 * int k, Tick)) [1..<Suc n]"

subsection \<open>QuizInterface: renders and effects as events\<close>

text \<open>
  A handler and the countdown effect are closures of the render that created them: they
  read the state of that render, and a \<open>set\<close> call changes what the next render will
  read. The finer model keeps both:
  \<^item> \<open>live\<close>: the state cells after every \<open>set\<close> call so far (and what the component
    has sent out);
  \<^item> \<open>shown\<close>: the state of the committed render, which its handlers and its effect
    read;
  \<^item> \<open>effect_due\<close>: the countdown effect of the committed render has not run yet;
  \<^item> \<open>timer\<close>: the pending timeout, with the \<open>timeLeft\<close> that its callback captured;
  \<^item> \<open>quiz_set\<close>: \<open>setQuiz\<close> was called since the last commit (the dependency \<open>quiz\<close>
    is a new object).
\<close>

record fiber =
  live :: session
  shown :: session
  effect_due :: bool
  timer :: "int option"
  quiz_set :: bool

definition fmount :: "string option \<Rightarrow> string \<Rightarrow> int \<Rightarrow> fiber" where
  "fmount u qz t0 =
     \<lparr>live = mount u qz t0, shown = mount u qz t0, effect_due = True, timer = None,
      quiz_set = False\<rparr>"

text \<open>
  \<open>handleSubmit\<close> as the closure of the committed render, up to its \<open>await\<close>: the guard
  and the row are read from \<open>shown\<close>, and \<open>setSubmitting(true)\<close> and the insert change
  \<open>live\<close>.
\<close>

definition handleSubmit_of :: "int \<Rightarrow> fiber \<Rightarrow> fiber" where
  "handleSubmit_of now f =
     (if submitting (shown f) \<or> quiz (shown f) = None \<or> user (shown f) = None then f
      else f\<lparr>live := (live f)
               \<lparr>submitting := True,
                in_flight := in_flight (live f) @ [submission now (shown f)],
                issued := issued (live f) @ [submission now (shown f)]\<rparr>\<rparr>)"

text \<open>
  What can occur: an event of the session, the commit of a render, and the run of the
  countdown effect of the committed render.
  \<^item> An event calls the handler of the committed render; the handlers of options and of
    navigation read the current question and the index from \<open>shown\<close>, and
    \<open>setAnswers(prev => ...)\<close> updates the live answers. A tick is the callback of the
    pending timeout, \<open>setTimeLeft(timeLeft - 1)\<close> with the captured \<open>timeLeft\<close>. The
    answer of an insert resumes \<open>handleSubmit\<close> past its \<open>await\<close>.
  \<^item> \<open>Commit\<close> makes the live state the committed one; the countdown effect is due
    when \<open>timeLeft\<close> or \<open>quiz\<close> changed.
  \<^item> \<open>RunEffect\<close> clears the timeout of the previous run, and starts a timeout or, at
    zero with the quiz loaded, calls \<open>handleSubmit\<close>.
  After \<open>onComplete\<close> the component is unmounted and only the answer of an insert still
  in flight has an effect.
\<close>

datatype occurrence = Happens event | Commit | RunEffect

fun occur :: "int \<Rightarrow> occurrence \<Rightarrow> fiber \<Rightarrow> fiber" where
  "occur now (Happens (Fetched quizResult questionsResult)) f =
     f\<lparr>live := fetchQuizData quizResult questionsResult (live f),
       quiz_set := (quiz_set f \<or> \<not> isl quizResult \<and> \<not> isl questionsResult)\<rparr>"
| "occur now (Happens Tick) f =
     (case timer f of
        None \<Rightarrow> f
      | Some t \<Rightarrow> f\<lparr>timer := None, live := (live f)\<lparr>timeLeft := t - 1\<rparr>\<rparr>)"
| "occur now (Happens (SelectOption key)) f =
     (if screen_shown (shown f) \<and> key \<in> {''A'', ''B'', ''C'', ''D''}
         \<and> 0 \<le> currentQuestionIndex (shown f)
         \<and> currentQuestionIndex (shown f) < int (length (questions (shown f)))
      then f\<lparr>live := handleAnswerSelect
                       (id_question (questions (shown f) ! nat (currentQuestionIndex (shown f))))
                       key (live f)\<rparr>
      else f)"
| "occur now (Happens (Navigate a)) f =
     (if screen_shown (shown f)
      then (case nav_step (int (length (questions (shown f)))) (currentQuestionIndex (shown f)) a of
              None \<Rightarrow> f
            | Some j \<Rightarrow> f\<lparr>live := (live f)\<lparr>currentQuestionIndex := j\<rparr>\<rparr>)
      else f)"
| "occur now (Happens ClickSubmit) f =
     (if screen_shown (shown f)
         \<and> currentQuestionIndex (shown f) = int (length (questions (shown f))) - 1
         \<and> \<not> submitting (shown f)
      then handleSubmit_of now f else f)"
| "occur now (Happens (InsertDone error)) f = f\<lparr>live := insert_resolved error (live f)\<rparr>"
| "occur now Commit f =
     f\<lparr>shown := live f,
       effect_due := (effect_due f \<or> timeLeft (live f) \<noteq> timeLeft (shown f) \<or> quiz_set f),
       quiz_set := False\<rparr>"
| "occur now RunEffect f =
     (if effect_due f
      then (if 0 < timeLeft (shown f)
            then f\<lparr>effect_due := False, timer := Some (timeLeft (shown f))\<rparr>
            else if timeLeft (shown f) = 0 \<and> quiz (shown f) \<noteq> None
            then handleSubmit_of now (f\<lparr>effect_due := False, timer := None\<rparr>)
            else f\<lparr>effect_due := False, timer := None\<rparr>)
      else f)"

fun answers_insert :: "occurrence \<Rightarrow> bool" where
  "answers_insert (Happens (InsertDone error)) = True"
| "answers_insert _ = False"

definition fstep :: "int \<times> occurrence \<Rightarrow> fiber \<Rightarrow> fiber" where
  "fstep e f =
     (if completed (live f) = None \<or> answers_insert (snd e) then occur (fst e) (snd e) f else f)"

fun frun :: "(int \<times> occurrence) list \<Rightarrow> fiber \<Rightarrow> fiber" where
  "frun [] f = f"
| "frun (e # es) f = frun es (fstep e f)"

text \<open>
  \<open>guard_seen\<close>: the committed render has seen \<open>submitting\<close> when it is set. A schedule
  is fresh when this holds wherever the guard of \<open>handleSubmit\<close> can be read (a click on
  Submit Quiz, a run of the effect). \<open>settle\<close> is the schedule in which every event is
  followed by its render, the effect, and the render of what the effect has set.
\<close>

fun reads_guard :: "occurrence \<Rightarrow> bool" where
  "reads_guard (Happens ClickSubmit) = True"
| "reads_guard RunEffect = True"
| "reads_guard _ = False"

definition guard_seen :: "fiber \<Rightarrow> bool" where
  "guard_seen f = (submitting (shown f) \<or> \<not> submitting (live f))"

fun fresh_run :: "(int \<times> occurrence) list \<Rightarrow> fiber \<Rightarrow> bool" where
  "fresh_run [] f = True"
| "fresh_run (e # es) f = ((guard_seen f \<or> \<not> reads_guard (snd e)) \<and> fresh_run es (fstep e f))"

definition settle :: "(int \<times> event) list \<Rightarrow> (int \<times> occurrence) list" where
  "settle es =
     concat (map (\<lambda>e. [(fst e, Happens (snd e)), (fst e, Commit), (fst e, RunEffect), (fst e, Commit)]) es)"





text \<open>
  The one-minute quiz with one question, left alone until its countdown shows one
  second.
\<close>

definition last_second :: "(int \<times> occurrence) list" where
  "last_second =
     settle ([(200, Fetched (Inr short_quiz) (Inr [\<lparr>id_question = ''q1'', correct_answer = ''A''\<rparr>])),
              (300, SelectOption ''A'')] @ ticks 59)"

subsection \<open>QuizResults\<close>

text \<open>
  The state of the results screen (\<open>questions_r\<close>, \<open>loading_r\<close> and \<open>console_r\<close> are its
  \<open>questions\<close>, \<open>loading\<close> and console), and \<open>queries_r\<close>, the tables queried so far.
\<close>

record results =
  quizTitle :: string
  questions_r :: "Question list"
  userAnswers :: "string \<rightharpoonup> string"
  loading_r :: bool
  console_r :: "string list"
  queries_r :: "string list"

definition results_mount :: results where
  "results_mount =
     \<lparr>quizTitle = [], questions_r = [], userAnswers = Map.empty, loading_r = True,
      console_r = [], queries_r = []\<rparr>"

text \<open>
  \<open>fetchQuizData\<close> of the results screen, from the answers of its three queries (title,
  questions, answers of the latest attempt). Each query is awaited before the next one
  is sent, and \<open>if (error) throw error\<close> leaves the \<open>try\<close> block; the \<open>catch\<close> logs,
  and the \<open>finally\<close> block runs \<open>setLoading(false)\<close> on every path.
\<close>

definition fetchQuizData_r ::
  "string + string \<Rightarrow> string + Question list \<Rightarrow> string + (string \<rightharpoonup> string) \<Rightarrow> results \<Rightarrow> results" where
  "fetchQuizData_r quizResult questionsResult attemptResult v =
     (case quizResult of
        Inl quizError \<Rightarrow>
          v\<lparr>queries_r := queries_r v @ [''quizzes''],
            console_r := console_r v @ [''Error fetching quiz data:''], loading_r := False\<rparr>
      | Inr quizData \<Rightarrow>
          (case questionsResult of
             Inl questionsError \<Rightarrow>
               v\<lparr>queries_r := queries_r v @ [''quizzes'', ''questions''],
                 console_r := console_r v @ [''Error fetching quiz data:''], loading_r := False\<rparr>
           | Inr questionsData \<Rightarrow>
               (case attemptResult of
                  Inl attemptError \<Rightarrow>
                    v\<lparr>queries_r := queries_r v @ [''quizzes'', ''questions'', ''user_quiz_attempts''],
                      console_r := console_r v @ [''Error fetching quiz data:''],
                      loading_r := False\<rparr>
                | Inr attemptAnswers \<Rightarrow>
                    v\<lparr>queries_r := queries_r v @ [''quizzes'', ''questions'', ''user_quiz_attempts''],
                      quizTitle := quizData, questions_r := questionsData,
                      userAnswers := attemptAnswers, loading_r := False\<rparr>)))"

text \<open>
  \<open>Math.round((a / b) * 100)\<close>: the expression of \<open>scorePercentage\<close>, and of the
  percentages of the dashboard.
\<close>

definition percent :: "int \<Rightarrow> int \<Rightarrow> jsnum" where
  "percent a b = Math_round (js_mul100 (js_div a b))"

definition scorePercentage :: "int \<Rightarrow> int \<Rightarrow> jsnum" where
  "scorePercentage sc totalQuestions = percent sc totalQuestions"

definition grade :: "jsnum \<Rightarrow> string" where
  "grade p =
     (if js_ge p 90 then ''A'' else if js_ge p 80 then ''B''
      else if js_ge p 70 then ''C'' else if js_ge p 60 then ''D'' else ''F'')"

text \<open>\<open>Math.round(timeTaken / totalQuestions)\<close>, the argument of \<open>formatTime\<close>.\<close>

definition averagePerQuestion :: "int \<Rightarrow> int \<Rightarrow> jsnum" where
  "averagePerQuestion timeTaken totalQuestions = Math_round (js_div timeTaken totalQuestions)"

subsection \<open>Dashboard\<close>

record UserStats =
  totalAttempts :: int
  averageScore :: jsnum
  bestScore :: jsnum
  timeSpent :: int

record dashboard =
  userStats :: UserStats
  quizAttempts :: "QuizAttempt list"

definition dashboard_mount :: dashboard where
  "dashboard_mount =
     \<lparr>userStats = \<lparr>totalAttempts = 0, averageScore = Fin 0, bestScore = Fin 0, timeSpent = 0\<rparr>,
      quizAttempts = []\<rparr>"

text \<open>
  \<open>fetchUserStats\<close>, from the signed-in user and the answer of its query. It returns at
  once without a user and on an error; \<open>setUserStats\<close> is called only for a non-empty
  list of attempts.
\<close>

definition fetchUserStats :: "string option \<Rightarrow> string + QuizAttempt list \<Rightarrow> dashboard \<Rightarrow> dashboard" where
  "fetchUserStats usr result d =
     (case usr of
        None \<Rightarrow> d
      | Some u \<Rightarrow>
          (case result of
             Inl error \<Rightarrow> d
           | Inr attempts \<Rightarrow>
               (if 0 < length attempts
                then
                  (let totalScore = foldl (\<lambda>sum attempt. sum + score attempt) 0 attempts;
                       totalPossibleScore =
                         foldl (\<lambda>sum attempt. sum + total_questions attempt) 0 attempts
                   in d\<lparr>quizAttempts := attempts,
                        userStats :=
                          \<lparr>totalAttempts = int (length attempts),
                           averageScore =
                             (if 0 < totalPossibleScore
                              then percent totalScore totalPossibleScore else Fin 0),
                           bestScore =
                             Math_max (map (\<lambda>attempt. percent (score attempt) (total_questions attempt))
                                         attempts),
                           timeSpent =
                             foldl (\<lambda>sum attempt. sum + time_taken_seconds attempt) 0 attempts\<rparr>\<rparr>)
                else d\<lparr>quizAttempts := attempts\<rparr>)))"

definition getQuizAttempts :: "dashboard \<Rightarrow> string \<Rightarrow> int" where
  "getQuizAttempts d quizIdent =
     int (length (filter (\<lambda>attempt. quiz_id attempt = quizIdent) (quizAttempts d)))"

text \<open>\<open>getBestScore\<close>; \<open>None\<close> is \<open>undefined\<close>.\<close>

definition getBestScore :: "dashboard \<Rightarrow> string \<Rightarrow> jsnum option" where
  "getBestScore d quizIdent =
     (let attempts = filter (\<lambda>attempt. quiz_id attempt = quizIdent) (quizAttempts d)
      in if length attempts = 0 then None
         else Some (Math_max (map (\<lambda>attempt. percent (score attempt) (total_questions attempt))
                                attempts)))"

section \<open>Doubles\<close>

text \<open>
  The binary exponent brackets a positive rational, so rounding moves a value by at most
  the fraction \<open>2^-53\<close> of its magnitude, and an integer below \<open>2^53\<close> is a double.
\<close>

lemma bitlen_powi:
  assumes "0 < p"
  shows "(2::rat) powi (bitlen p - 1) \<le> of_int p" and "of_int p < (2::rat) powi (bitlen p)"
proof -
  from bitlen_bounds [OF assms] have lo: "2 ^ nat (bitlen p - 1) \<le> p" and hi: "p < 2 ^ nat (bitlen p)"
    by simp_all
  from assms have b1: "1 \<le> bitlen p"
    using bitlen_eq_zero_iff [of p] bitlen_nonneg [of p] by linarith
  have "(2::rat) powi (bitlen p - 1) = 2 ^ nat (bitlen p - 1)"
    using b1 by (simp add: power_int_def)
  also have "\<dots> = of_int (2 ^ nat (bitlen p - 1))" by simp
  also have "\<dots> \<le> of_int p" using lo by (simp only: of_int_le_iff)
  finally show "(2::rat) powi (bitlen p - 1) \<le> of_int p" .
  have "(of_int p :: rat) < of_int (2 ^ nat (bitlen p))" using hi by (simp only: of_int_less_iff)
  also have "\<dots> = 2 powi (bitlen p)" using b1 by (simp add: power_int_def)
  finally show "of_int p < (2::rat) powi (bitlen p)" .
qed

lemma expo_bounds:
  assumes "0 < x"
  shows "2 powi (expo x) \<le> x" and "x < 2 powi (expo x + 1)"
proof -
  obtain p q where pq: "quotient_of x = (p, q)" by (cases "quotient_of x")
  then have q: "0 < q" and x: "x = of_int p / of_int q"
    by (simp_all add: quotient_of_denom_pos quotient_of_div)
  from assms x q have p: "0 < p" by (simp add: zero_less_divide_iff)
  define d where "d = bitlen p - bitlen q"
  have e: "expo x = (if 2 powi d \<le> x then d else d - 1)"
    by (simp add: expo_def pq d_def Let_def)
  have qpos: "(0::rat) < of_int q" using q by simp
  have lo: "(2::rat) powi (d - 1) \<le> x"
  proof -
    have "(2::rat) powi (d - 1) * of_int q \<le> 2 powi (d - 1) * 2 powi (bitlen q)"
      using bitlen_powi(2) [OF q] by (intro mult_left_mono) simp_all
    also have "\<dots> = 2 powi (bitlen p - 1)"
      by (simp add: d_def flip: power_int_add)
    also have "\<dots> \<le> of_int p" by (rule bitlen_powi(1) [OF p])
    finally show ?thesis using qpos by (simp add: x pos_le_divide_eq)
  qed
  have hi: "x < (2::rat) powi (d + 1)"
  proof -
    have "of_int p < (2::rat) powi (bitlen p)" by (rule bitlen_powi(2) [OF p])
    also have "\<dots> = 2 powi (d + 1) * 2 powi (bitlen q - 1)"
      by (simp add: d_def flip: power_int_add)
    also have "\<dots> \<le> 2 powi (d + 1) * of_int q"
      using bitlen_powi(1) [OF q] by (intro mult_left_mono) simp_all
    finally show ?thesis using qpos by (simp add: x pos_divide_less_eq)
  qed
  show "2 powi (expo x) \<le> x" using lo by (simp add: e)
  show "x < 2 powi (expo x + 1)"
  proof (cases "2 powi d \<le> x")
    case True
    then show ?thesis using hi by (simp add: e)
  next
    case False
    then show ?thesis by (simp add: e)
  qed
qed

lemma round_half_even_near: "\<bar>of_int (round_half_even m) - m\<bar> \<le> 1 / 2"
proof -
  have "of_int \<lfloor>m\<rfloor> \<le> m" "m < of_int \<lfloor>m\<rfloor> + 1" by linarith+
  then show ?thesis
    by (auto simp: round_half_even_def Let_def abs_le_iff)
qed

lemma round_half_even_of_int: "round_half_even (of_int k) = k"
  by (simp add: round_half_even_def)

lemma fl_error: "\<bar>fl x - x\<bar> \<le> \<bar>x\<bar> / 2 ^ 53"
proof (cases "x = 0")
  case True
  then show ?thesis by (simp add: fl_def)
next
  case False
  define a where "a = \<bar>x\<bar>"
  define u where "u = (2::rat) powi (expo a - 52)"
  define n where "n = round_half_even (a / u)"
  have a: "0 < a" using False by (simp add: a_def)
  have u: "0 < u" by (simp add: u_def)
  have fl: "fl x = sgn x * (of_int n * u)"
    using False by (simp add: fl_def Let_def a_def u_def n_def mult.assoc)
  have x: "x = sgn x * a" by (simp add: a_def sgn_mult_abs)
  have "fl x - x = sgn x * (of_int n * u - a)"
    by (subst x, subst fl) (simp add: algebra_simps)
  then have "\<bar>fl x - x\<bar> = \<bar>of_int n * u - a\<bar>"
    using False by (simp add: abs_mult abs_sgn_eq)
  also have "of_int n * u - a = (of_int n - a / u) * u"
    using u by (simp add: algebra_simps)
  also have "\<bar>\<dots>\<bar> = \<bar>of_int n - a / u\<bar> * u"
    using u by (simp add: abs_mult)
  also have "\<dots> \<le> 1 / 2 * u"
    using round_half_even_near [of "a / u"] u by (intro mult_right_mono) (simp_all add: n_def)
  also have "\<dots> = 2 powi (expo a) / 2 ^ 53"
    by (simp add: u_def power_int_diff)
  also have "\<dots> \<le> a / 2 ^ 53"
    using expo_bounds(1) [OF a] by (simp add: divide_right_mono)
  finally show ?thesis by (simp add: a_def)
qed

lemma fl_of_int:
  assumes "\<bar>k\<bar> < 2 ^ 53"
  shows "fl (of_int k) = of_int k"
proof (cases "k = 0")
  case True
  then show ?thesis by (simp add: fl_def)
next
  case False
  define a :: rat where "a = \<bar>of_int k\<bar>"
  define e where "e = expo a"
  have a: "0 < a" using False by (simp add: a_def)
  have ak: "a = of_int \<bar>k\<bar>" by (simp add: a_def)
  have "2 powi e \<le> a" using expo_bounds(1) [OF a] by (simp add: e_def)
  also have "a < 2 ^ 53" using assms unfolding ak
    by (metis of_int_less_iff of_int_numeral of_int_power)
  finally have "(2::rat) powi e < 2 powi 53" by simp
  then have e: "e < 53"
    by (rule power_int_le_imp_less_exp [rotated]) simp_all
  define j where "j = nat (52 - e)"
  have u: "(2::rat) powi (e - 52) = 1 / 2 ^ j"
    using e by (simp add: power_int_def j_def field_simps)
  have "a / 2 powi (e - 52) = of_int (\<bar>k\<bar> * 2 ^ j)"
    by (simp add: u ak)
  then have r: "round_half_even (a / 2 powi (e - 52)) = \<bar>k\<bar> * 2 ^ j"
    by (simp only: round_half_even_of_int)
  have "fl (of_int k) = sgn (of_int k) * of_int (\<bar>k\<bar> * 2 ^ j) * (1 / 2 ^ j)"
    using False r by (simp add: fl_def Let_def u flip: a_def e_def)
  also have "\<dots> = sgn (of_int k) * \<bar>of_int k\<bar>" by simp
  also have "\<dots> = of_int k" by (simp only: sgn_mult_abs)
  finally show ?thesis .
qed

lemma fl_half_int:
  assumes "\<bar>m\<bar> < 2 ^ 53"
  shows "fl (of_int m / 2) = of_int m / 2"
proof (cases "m = 0")
  case True
  then show ?thesis by (simp add: fl_def)
next
  case False
  define x :: rat where "x = of_int m / 2"
  define a :: rat where "a = \<bar>x\<bar>"
  define e where "e = expo a"
  have x0: "x \<noteq> 0" using False by (simp add: x_def)
  have a: "0 < a" using x0 by (simp add: a_def)
  have am: "a = of_int \<bar>m\<bar> / 2" by (simp add: a_def x_def)
  have "(of_int \<bar>m\<bar> :: rat) < 2 ^ 53" using assms
    by (metis of_int_less_iff of_int_numeral of_int_power)
  then have a52: "a < 2 ^ 52" by (simp add: am)
  have "2 powi e \<le> a" using expo_bounds(1) [OF a] by (simp add: e_def)
  also note a52
  finally have "(2::rat) powi e < 2 powi 52" by simp
  then have e: "e < 52"
    by (rule power_int_le_imp_less_exp [rotated]) simp_all
  define j where "j = nat (51 - e)"
  have u: "(2::rat) powi (e - 52) = 1 / (2 * 2 ^ j)"
  proof -
    have "nat (52 - e) = Suc j" using e by (simp add: j_def)
    with e show ?thesis by (simp add: power_int_def field_simps)
  qed
  have "a / 2 powi (e - 52) = of_int (\<bar>m\<bar> * 2 ^ j)"
    by (simp add: u am)
  then have r: "round_half_even (a / 2 powi (e - 52)) = \<bar>m\<bar> * 2 ^ j"
    by (simp only: round_half_even_of_int)
  have "fl x = sgn x * of_int (\<bar>m\<bar> * 2 ^ j) * (1 / (2 * 2 ^ j))"
    using x0 r by (simp add: fl_def Let_def u flip: a_def e_def)
  also have "\<dots> = sgn x * (of_int \<bar>m\<bar> / 2)" by simp
  also have "\<dots> = sgn x * \<bar>x\<bar>" by (simp add: x_def)
  also have "\<dots> = x" by (simp only: sgn_mult_abs)
  finally show ?thesis by (simp add: x_def)
qed

text \<open>
  \<open>Math.floor(a / b)\<close> is the integer quotient: the double next to \<open>a / b\<close> lies on
  the same side of every integer.
\<close>

lemma floor_fl_div:
  assumes a: "0 \<le> a" and a53: "a < 2 ^ 53" and b: "0 < b"
  shows "\<lfloor>fl (of_int a / of_int b)\<rfloor> = a div b"
proof (cases "a mod b = 0")
  case True
  then obtain k where k: "a = b * k" by (auto simp: mod_eq_0_iff_dvd)
  have kd: "a div b = k" using b by (simp add: k)
  have x: "(of_int a / of_int b :: rat) = of_int (a div b)"
    using b unfolding kd by (simp add: k)
  have "0 \<le> a div b" using a b by (simp add: pos_imp_zdiv_nonneg_iff)
  moreover have "a div b \<le> a" using zdiv_mono2 [of a 1 b] a b by simp
  ultimately have "\<bar>a div b\<bar> < 2 ^ 53" using a53 by simp
  from fl_of_int [OF this] show ?thesis by (simp add: x)
next
  case False
  define x :: rat where "x = of_int a / of_int b"
  define k where "k = a div b"
  define r where "r = a mod b"
  have r: "1 \<le> r" "r \<le> b - 1"
    using False pos_mod_sign [OF b, of a] pos_mod_bound [OF b, of a] by (simp_all add: r_def)
  have ab: "a = k * b + r" by (simp add: k_def r_def)
  have bpos: "(0::rat) < of_int b" using b by simp
  have xk: "x = of_int k + of_int r / of_int b"
    using bpos by (simp add: x_def ab field_simps)
  have lo: "of_int k + 1 / of_int b \<le> x"
    using r(1) bpos by (simp add: xk divide_right_mono)
  have "(of_int r :: rat) \<le> of_int (b - 1)" using r(2) by (simp only: of_int_le_iff)
  then have "of_int r / (of_int b :: rat) \<le> (of_int b - 1) / of_int b"
    using bpos by (intro divide_right_mono) simp_all
  also have "\<dots> = 1 - 1 / of_int b"
    using bpos by (simp add: diff_divide_distrib)
  finally have hi: "x \<le> of_int k + 1 - 1 / of_int b"
    by (simp add: xk)
  have x0: "0 \<le> x" using a bpos by (simp add: x_def)
  have "\<bar>fl x - x\<bar> \<le> \<bar>x\<bar> / 2 ^ 53" by (rule fl_error)
  also have "\<bar>x\<bar> = x" using x0 by simp
  also have "x / 2 ^ 53 = (of_int a / 2 ^ 53) / of_int b"
    by (simp add: x_def)
  also have "\<dots> < 1 / of_int b"
  proof -
    have "(of_int a :: rat) < 2 ^ 53" using a53
      by (metis of_int_less_iff of_int_numeral of_int_power)
    then have "(of_int a / 2 ^ 53 :: rat) < 1" by simp
    then show ?thesis using bpos by (rule divide_strict_right_mono)
  qed
  finally have err: "\<bar>fl x - x\<bar> < 1 / of_int b" .
  have "of_int k \<le> fl x" using err lo by linarith
  moreover have "fl x < of_int k + 1" using err hi by linarith
  ultimately have "\<lfloor>fl x\<rfloor> = k" by (simp add: floor_unique)
  then show ?thesis by (simp add: x_def k_def)
qed

text \<open>
  \<open>Math.round((a / b) * 100)\<close> carries two roundings. The result is the percentage
  rounded to the nearest integer, except possibly where \<open>100 a / b\<close> lies exactly half
  way between two integers: there the double product can fall below the half, and the
  result is then one less.
\<close>

lemma double_product_error:
  assumes x: "0 \<le> x"
  shows "\<bar>fl (fl x * 100) - 100 * x\<bar> \<le> 300 * x / 2 ^ 53"
proof -
  have e1: "\<bar>fl x - x\<bar> \<le> x / 2 ^ 53" using fl_error [of x] x by simp
  have "x / 2 ^ 53 \<le> x" using x by (simp add: field_simps)
  with e1 have f2: "\<bar>fl x\<bar> \<le> 2 * x" by linarith
  have "\<bar>fl (fl x * 100) - fl x * 100\<bar> \<le> \<bar>fl x * 100\<bar> / 2 ^ 53" by (rule fl_error)
  also have "\<bar>fl x * 100\<bar> = 100 * \<bar>fl x\<bar>" by (simp add: abs_mult)
  also have "100 * \<bar>fl x\<bar> / 2 ^ 53 \<le> 100 * (2 * x) / 2 ^ 53"
    using f2 by (intro divide_right_mono mult_left_mono) simp_all
  finally have e2: "\<bar>fl (fl x * 100) - fl x * 100\<bar> \<le> 200 * x / 2 ^ 53" by simp
  have "fl (fl x * 100) - 100 * x = (fl (fl x * 100) - fl x * 100) + 100 * (fl x - x)"
    by (simp add: algebra_simps)
  then have "\<bar>fl (fl x * 100) - 100 * x\<bar>
      \<le> \<bar>fl (fl x * 100) - fl x * 100\<bar> + \<bar>100 * (fl x - x)\<bar>"
    by (simp only: abs_triangle_ineq)
  moreover have "\<bar>100 * (fl x - x)\<bar> = 100 * \<bar>fl x - x\<bar>"
    by (simp only: abs_mult abs_numeral)
  ultimately show ?thesis using e1 e2 by linarith
qed

lemma percent_exact_or_one_less:
  assumes a: "0 \<le> a" and a43: "a < 2 ^ 43" and b: "0 < b"
  shows "(200 * a + b) mod (2 * b) \<noteq> 0 \<longrightarrow> percent a b = Fin (of_int ((200 * a + b) div (2 * b)))"
    and "percent a b = Fin (of_int ((200 * a + b) div (2 * b)))
         \<or> percent a b = Fin (of_int ((200 * a + b) div (2 * b) - 1))"
proof -
  define x :: rat where "x = of_int a / of_int b"
  define y where "y = fl (fl x * 100)"
  define R where "R = (200 * a + b) div (2 * b)"
  define r where "r = (200 * a + b) mod (2 * b)"
  have bpos: "(0::rat) < of_int b" using b by simp
  have x0: "0 \<le> x" using a bpos by (simp add: x_def)
  have p: "percent a b = Fin (of_int \<lfloor>y + 1 / 2\<rfloor>)"
    using b by (simp add: percent_def js_div_def x_def y_def)
  have c: "200 * a + b = R * (2 * b) + r" by (simp only: R_def r_def div_mult_mod_eq)
  have r0: "0 \<le> r" and r1: "r \<le> 2 * b - 1"
    using pos_mod_sign [of "2 * b" "200 * a + b"] pos_mod_bound [of "2 * b" "200 * a + b"] b
    by (simp_all add: r_def)
  have "of_int (200 * a + b) / (2 * of_int b :: rat) = of_int (R * (2 * b) + r) / (2 * of_int b)"
    by (simp only: c)
  then have X: "100 * x + 1 / 2 = of_int R + of_int r / (2 * of_int b)"
    using bpos by (simp add: x_def field_simps)
  have "(of_int a :: rat) < 2 ^ 43" using a43
    by (metis of_int_less_iff of_int_numeral of_int_power)
  then have "600 * (of_int a :: rat) < 2 ^ 53" by simp
  then have "300 * of_int a / 2 ^ 53 < (1 / 2 :: rat)" by simp
  then have "(300 * of_int a / 2 ^ 53) / of_int b < (1 / 2 :: rat) / of_int b"
    using bpos by (rule divide_strict_right_mono)
  moreover have "300 * x / 2 ^ 53 = (300 * of_int a / 2 ^ 53) / of_int b"
    by (simp add: x_def)
  moreover have "(1 / 2 :: rat) / of_int b = 1 / (2 * of_int b)" by simp
  ultimately have "300 * x / 2 ^ 53 < 1 / (2 * of_int b)" by simp
  with double_product_error [OF x0] have err: "\<bar>y - 100 * x\<bar> < 1 / (2 * of_int b)"
    by (simp add: y_def)
  have half: "1 / (2 * of_int b) \<le> (1 / 2 :: rat)"
  proof -
    from b have "1 \<le> b" by simp
    then have "(1::rat) \<le> of_int b" by (metis of_int_1 of_int_le_iff)
    then show ?thesis by (simp add: field_simps)
  qed
  have rlo: "0 \<le> of_int r / (2 * of_int b :: rat)" using r0 bpos by simp
  have "(of_int r :: rat) \<le> of_int (2 * b - 1)" using r1 by (simp only: of_int_le_iff)
  then have "of_int r / (2 * of_int b :: rat) \<le> (2 * of_int b - 1) / (2 * of_int b)"
    using bpos by (intro divide_right_mono) simp_all
  also have "\<dots> = 1 - 1 / (2 * of_int b)" using bpos by (simp add: diff_divide_distrib)
  finally have rhi: "of_int r / (2 * of_int b :: rat) \<le> 1 - 1 / (2 * of_int b)" .
  have up: "y + 1 / 2 < of_int R + 1" using err X rhi by linarith
  have down: "of_int R - 1 \<le> y + 1 / 2" using err X rlo half by linarith
  have le: "\<lfloor>y + 1 / 2\<rfloor> \<le> R"
    using up floor_less_iff [of "y + 1 / 2" "R + 1"] by simp
  have ge: "R - 1 \<le> \<lfloor>y + 1 / 2\<rfloor>" using down by (simp add: le_floor_iff)
  show "percent a b = Fin (of_int ((200 * a + b) div (2 * b)))
         \<or> percent a b = Fin (of_int ((200 * a + b) div (2 * b) - 1))"
    using le ge unfolding p R_def [symmetric] by (simp flip: of_int_diff) linarith
  show "(200 * a + b) mod (2 * b) \<noteq> 0 \<longrightarrow> percent a b = Fin (of_int ((200 * a + b) div (2 * b)))"
  proof
    assume "(200 * a + b) mod (2 * b) \<noteq> 0"
    with r0 have "1 \<le> r" by (simp add: r_def)
    then have "(1 :: rat) \<le> of_int r" by (metis of_int_1 of_int_le_iff)
    then have "1 / (2 * of_int b) \<le> of_int r / (2 * of_int b :: rat)"
      using bpos by (intro divide_right_mono) simp_all
    with err X have "of_int R \<le> y + 1 / 2" by linarith
    with up have "\<lfloor>y + 1 / 2\<rfloor> = R" by (simp add: floor_unique)
    then show "percent a b = Fin (of_int ((200 * a + b) div (2 * b)))"
      by (simp add: p R_def)
  qed
qed

lemma round_half_up_div:
  assumes "0 < b"
  shows "\<lfloor>100 * of_int a / of_int b + (1 / 2 :: rat)\<rfloor> = (200 * a + b) div (2 * b)"
proof -
  have "100 * of_int a / of_int b + (1 / 2 :: rat) = of_int (200 * a + b) / of_int (2 * b)"
    using assms by (simp add: field_simps)
  then show ?thesis by (simp only: floor_divide_of_int_eq)
qed

section \<open>Navigation stays inside the question list\<close>

lemma nav_step_in_range:
  assumes "1 \<le> n" and "0 \<le> i" and "i < n" and "nav_step n i a = Some j"
  shows "0 \<le> j \<and> j < n"
  using assms by (cases a) (auto split: if_splits)

lemma nav_run_in_range:
  assumes "1 \<le> n" and "0 \<le> i" and "i < n" and "nav_run n i as = Some j"
  shows "0 \<le> j \<and> j < n"
  using assms
proof (induction as arbitrary: i)
  case Nil
  then show ?case by simp
next
  case (Cons a as)
  from Cons.prems(4) obtain k where k: "nav_step n i a = Some k" and r: "nav_run n k as = Some j"
    by (auto split: option.splits)
  from nav_step_in_range [OF Cons.prems(1-3) k] have "0 \<le> k" and "k < n" by simp_all
  with Cons.IH [OF Cons.prems(1) _ _ r] show ?case by simp
qed

lemma nav_run_defined:
  assumes "\<forall>a \<in> set as. rendered n a"
  shows "nav_run n i as \<noteq> None"
  using assms
proof (induction as arbitrary: i)
  case Nil
  then show ?case by simp
next
  case (Cons a as)
  then show ?case by (cases a) auto
qed

text \<open>
  Claim C6. For a quiz with \<open>n \<ge> 1\<close> questions, starting at index 0, every sequence of
  Previous, Next and jump actions that the screen offers is carried out (no action is
  refused, and no handler looks at the answers given so far), and the index it ends at
  lies in \<open>[0, n - 1]\<close>.
\<close>

theorem navigation_index_in_range:
  assumes "1 \<le> n" and "\<forall>a \<in> set as. rendered n a"
  shows "\<exists>j. nav_run n 0 as = Some j \<and> 0 \<le> j \<and> j \<le> n - 1"
proof -
  from nav_run_defined [OF assms(2)] obtain j where j: "nav_run n 0 as = Some j"
    by blast
  from assms(1) have "(0::int) < n" by simp
  from nav_run_in_range [OF assms(1) _ this j] have "0 \<le> j \<and> j < n" by simp
  with j show ?thesis by auto
qed

theorem navigation_index_in_range_witness:
  "nav_run 3 0 [Next, Next, Next, Jump 0, Previous, Jump 2, Previous] = Some 1"
  using navigation_index_in_range [of 3 "[Next, Next, Next, Jump 0, Previous, Jump 2, Previous]"]
  by simp

section \<open>The submitted attempt\<close>

lemma score_answers_fst:
  "fst (score_answers A qs (sc, ua)) =
     sc + int (length (filter (\<lambda>q. A (id_question q) = Some (correct_answer q)) qs))"
  by (induction qs arbitrary: sc ua) simp_all

lemma score_answers_snd:
  "snd (score_answers A qs (sc, ua)) k =
     (if k \<in> id_question ` set qs then Some (or_empty (A k)) else ua k)"
  by (induction qs arbitrary: sc ua) auto

lemma or_empty_eq: "or_empty x = (case x of None \<Rightarrow> [] | Some v \<Rightarrow> v)"
  by (simp add: or_empty_def split: option.splits)

lemma submission_score:
  "score (submission now s) =
     int (length (filter (\<lambda>q. answers s (id_question q) = Some (correct_answer q)) (questions s)))"
  using score_answers_fst [of "answers s" "questions s" 0 Map.empty]
  by (simp add: submission_def Let_def case_prod_beta)

lemma submission_answers:
  "answers_col (submission now s) k =
     (if k \<in> id_question ` set (questions s) then Some (or_empty (answers s k)) else None)"
  using score_answers_snd [of "answers s" "questions s" 0 Map.empty k]
  by (simp add: submission_def Let_def case_prod_beta)

lemma submission_total: "total_questions (submission now s) = int (length (questions s))"
  by (simp add: submission_def Let_def case_prod_beta)

lemma submission_time:
  assumes "0 \<le> now - startTime s" and "now - startTime s < 2 ^ 53"
  shows "time_taken_seconds (submission now s) = (now - startTime s) div 1000"
  using floor_fl_div [OF assms, of 1000]
  by (simp add: submission_def Let_def case_prod_beta)

lemma submission_timeLeft: "submission now (s\<lparr>timeLeft := t\<rparr>) = submission now s"
  by (simp add: submission_def)

lemma stored_matches_iff:
  assumes "c \<noteq> []"
  shows "Some (or_empty a) = Some c \<longleftrightarrow> a = Some c"
  using assms by (cases a) (auto simp: or_empty_def)

lemma trigger_issues:
  assumes "completed s = None" "\<not> submitting s" "quiz s \<noteq> None" "user s \<noteq> None"
    and "trigger ev s"
  shows "in_flight (step (now, ev) s) = in_flight s @ [submission now s]"
    and "issued (step (now, ev) s) = issued s @ [submission now s]"
    and "table (step (now, ev) s) = table s"
    and "completed (step (now, ev) s) = None"
    and "submitting (step (now, ev) s)"
  using assms
  by (auto simp: trigger_def step_def countdown_effect_def handleSubmit_def submission_timeLeft)

text \<open>
  Claim C1. In a session that is not submitting, with the quiz loaded and a user signed
  in, a submission (the click on Submit Quiz, or the tick that takes the countdown to
  zero) followed by the backend's acceptance adds exactly one row to the attempts. Its
  score is the number of questions whose selected key equals \<open>correct_answer\<close>, which is
  also the number of questions whose stored answer equals \<open>correct_answer\<close> (the stored
  answer of an unanswered question is the empty string, and no correct answer is empty);
  its answers have exactly the question ids as keys, each with the selected key or the
  empty string; its \<open>total_questions\<close> is the number of questions; and its
  \<open>time_taken_seconds\<close> is the whole number of seconds between the start of the session
  and the submission, whatever the countdown shows.
\<close>

theorem submission_persists_scored_attempt:
  assumes "completed s = None" and "\<not> submitting s" and "quiz s \<noteq> None" and "user s \<noteq> None"
    and "in_flight s = []"
    and "trigger ev s"
    and "0 \<le> now - startTime s" and "now - startTime s < 2 ^ 53"
    and "\<forall>q \<in> set (questions s). correct_answer q \<in> {''A'', ''B'', ''C'', ''D''}"
  shows "\<exists>row. table (run [(now, ev), (later, InsertDone None)] s) = table s @ [row]
           \<and> score row = int (length (filter (\<lambda>q. answers s (id_question q) = Some (correct_answer q)) (questions s)))
           \<and> score row = int (length (filter (\<lambda>q. answers_col row (id_question q) = Some (correct_answer q)) (questions s)))
           \<and> dom (answers_col row) = id_question ` set (questions s)
           \<and> (\<forall>q \<in> set (questions s). answers_col row (id_question q) =
                 Some (case answers s (id_question q) of None \<Rightarrow> [] | Some key \<Rightarrow> key))
           \<and> total_questions row = int (length (questions s))
           \<and> time_taken_seconds row = (now - startTime s) div 1000"
proof -
  let ?row = "submission now s"
  let ?s1 = "step (now, ev) s"
  have fl: "in_flight ?s1 = [?row]" and tb: "table ?s1 = table s" and c: "completed ?s1 = None"
    using trigger_issues [OF assms(1-4) assms(6), of now] assms(5) by simp_all
  have t: "table (run [(now, ev), (later, InsertDone None)] s) = table s @ [?row]"
    by (simp add: step_def [of "(later, InsertDone None)"] c insert_resolved_def fl tb)
  have stored: "length (filter (\<lambda>q. answers_col ?row (id_question q) = Some (correct_answer q)) (questions s))
      = length (filter (\<lambda>q. answers s (id_question q) = Some (correct_answer q)) (questions s))"
  proof -
    have "\<forall>q \<in> set (questions s).
        (answers_col ?row (id_question q) = Some (correct_answer q))
          = (answers s (id_question q) = Some (correct_answer q))"
    proof
      fix q assume q: "q \<in> set (questions s)"
      with assms(9) have "correct_answer q \<noteq> []" by auto
      from stored_matches_iff [OF this] q
      show "(answers_col ?row (id_question q) = Some (correct_answer q))
          = (answers s (id_question q) = Some (correct_answer q))"
        by (simp add: submission_answers)
    qed
    then have "filter (\<lambda>q. answers_col ?row (id_question q) = Some (correct_answer q)) (questions s)
        = filter (\<lambda>q. answers s (id_question q) = Some (correct_answer q)) (questions s)"
      by (intro filter_cong) simp_all
    then show ?thesis by (simp only:)
  qed
  have d: "dom (answers_col ?row) = id_question ` set (questions s)"
    by (auto simp: submission_answers dom_def)
  have e: "\<forall>q \<in> set (questions s). answers_col ?row (id_question q) =
                 Some (case answers s (id_question q) of None \<Rightarrow> [] | Some key \<Rightarrow> key)"
    by (simp add: submission_answers or_empty_eq)
  show ?thesis
    using t submission_score [of now s] stored d e submission_total [of now s]
      submission_time [OF assms(7,8)]
    by (intro exI [of _ ?row]) simp
qed

theorem submission_persists_scored_attempt_witness:
  "\<exists>row. table (run [(1125400, ClickSubmit), (1125900, InsertDone None)] demo_session) = [row]
     \<and> score row = 3 \<and> total_questions row = 5 \<and> time_taken_seconds row = 125
     \<and> dom (answers_col row) = {''q1'', ''q2'', ''q3'', ''q4'', ''q5''}
     \<and> answers_col row ''q1'' = Some ''A'' \<and> answers_col row ''q4'' = Some []
     \<and> answers_col row ''q5'' = Some []"
proof -
  have h: "completed demo_session = None" "\<not> submitting demo_session"
    "quiz demo_session \<noteq> None" "user demo_session \<noteq> None" "in_flight demo_session = []"
    "trigger ClickSubmit demo_session"
    "0 \<le> 1125400 - startTime demo_session" "1125400 - startTime demo_session < 2 ^ 53"
    "\<forall>q \<in> set (questions demo_session). correct_answer q \<in> {''A'', ''B'', ''C'', ''D''}"
    by code_simp+
  have v: "table demo_session = []" "questions demo_session = demo_questions"
    "startTime demo_session = 1000000"
    "answers demo_session ''q1'' = Some ''A''" "answers demo_session ''q2'' = Some ''B''"
    "answers demo_session ''q3'' = Some ''C''" "answers demo_session ''q4'' = None"
    "answers demo_session ''q5'' = None"
    by code_simp+
  from submission_persists_scored_attempt [OF h, of 1125900] v
  show ?thesis
    apply (simp add: demo_questions_def)
    apply (elim exE conjE)
    apply (rule exI)
    apply (intro conjI; assumption)
    done
qed

section \<open>The countdown\<close>

lemma handleSubmit_timeLeft: "timeLeft (handleSubmit now s) = timeLeft s"
  by (simp add: handleSubmit_def)

lemma countdown_effect_timeLeft: "timeLeft (countdown_effect now s) = timeLeft s"
  by (simp add: countdown_effect_def handleSubmit_timeLeft)

lemma insert_resolved_timeLeft: "timeLeft (insert_resolved r s) = timeLeft s"
  by (simp add: insert_resolved_def split: list.splits option.splits)

lemma handle_timeLeft_nonneg:
  assumes "0 \<le> timeLeft s" and "nonneg_duration ev"
  shows "0 \<le> timeLeft (handle now ev s)"
proof (cases ev)
  case (Fetched quizResult questionsResult)
  with assms show ?thesis
    by (cases quizResult; cases questionsResult)
       (simp_all add: countdown_effect_timeLeft fetchQuizData_def)
next
  case Tick
  with assms show ?thesis by (simp add: countdown_effect_timeLeft)
next
  case (SelectOption key)
  with assms show ?thesis by (simp add: handleAnswerSelect_def)
next
  case (Navigate a)
  with assms show ?thesis by (simp split: option.splits)
next
  case ClickSubmit
  with assms show ?thesis by (simp add: handleSubmit_timeLeft)
next
  case (InsertDone r)
  with assms show ?thesis by (simp add: insert_resolved_timeLeft)
qed

lemma run_timeLeft_nonneg:
  assumes "0 \<le> timeLeft s" and "\<forall>e \<in> set es. nonneg_duration (snd e)"
  shows "0 \<le> timeLeft (run es s)"
  using assms
proof (induction es arbitrary: s)
  case Nil
  then show ?case by simp
next
  case (Cons e es)
  have "0 \<le> timeLeft (step e s)"
    using handle_timeLeft_nonneg [of s "snd e" "fst e"] Cons.prems by (simp add: step_def)
  with Cons show ?case by simp
qed

text \<open>
  Claim C9. In every state that a session reaches from its mount, through any events
  whose loaded quizzes have a non-negative duration, the remaining time is not negative;
  a tick takes one second off a positive remaining time and changes no other.
\<close>

theorem timeLeft_never_negative:
  assumes "\<forall>e \<in> set es. nonneg_duration (snd e)"
  shows "0 \<le> timeLeft (run es (mount u qz t0))
     \<and> timeLeft (step (now, Tick) (run es (mount u qz t0)))
         = (if 0 < timeLeft (run es (mount u qz t0)) \<and> completed (run es (mount u qz t0)) = None
            then timeLeft (run es (mount u qz t0)) - 1
            else timeLeft (run es (mount u qz t0)))"
  using run_timeLeft_nonneg [OF _ assms, of "mount u qz t0"]
  by (simp add: mount_def step_def countdown_effect_timeLeft)

theorem timeLeft_never_negative_witness:
  "0 \<le> timeLeft (run (short_start @ ticks 75) (mount (Some ''u1'') ''quiz2'' 0))
   \<and> timeLeft (run (short_start @ ticks 75) (mount (Some ''u1'') ''quiz2'' 0)) = 0"
proof -
  have "\<forall>e \<in> set (short_start @ ticks 75). nonneg_duration (snd e)" by code_simp
  from timeLeft_never_negative [OF this, of "Some ''u1''" "''quiz2''" 0]
  have "0 \<le> timeLeft (run (short_start @ ticks 75) (mount (Some ''u1'') ''quiz2'' 0))"
    by (rule conjunct1)
  moreover have "timeLeft (run (short_start @ ticks 75) (mount (Some ''u1'') ''quiz2'' 0)) = 0"
    by code_simp
  ultimately show ?thesis by simp
qed

section \<open>The guard of the submission\<close>

























text \<open>
  Outside the fresh schedules the guard reads a stale \<open>submitting\<close>. When the click on
  Submit Quiz falls between the commit of the render that shows zero and its effect, or
  between that effect and the render of its \<open>setSubmitting(true)\<close>, both calls of
  \<open>handleSubmit\<close> pass the guard: two inserts are in flight, and the backend can accept
  both.
\<close>

lemma stale_guard_race:
  "\<not> fresh_run (last_second @ [(60200, Happens Tick), (60201, Commit),
                                (60202, Happens ClickSubmit), (60203, RunEffect)])
        (fmount (Some ''u1'') ''quiz2'' 0)
   \<and> length (in_flight (live (frun
        (last_second @ [(60200, Happens Tick), (60201, Commit),
                        (60202, Happens ClickSubmit), (60203, RunEffect)])
        (fmount (Some ''u1'') ''quiz2'' 0)))) = 2
   \<and> length (in_flight (live (frun
        (last_second @ [(60200, Happens Tick), (60201, Commit),
                        (60202, RunEffect), (60203, Happens ClickSubmit)])
        (fmount (Some ''u1'') ''quiz2'' 0)))) = 2
   \<and> length (table (live (frun
        (last_second @ [(60200, Happens Tick), (60201, Commit),
                        (60202, Happens ClickSubmit), (60203, RunEffect),
                        (60500, Happens (InsertDone None)), (60600, Happens (InsertDone None))])
        (fmount (Some ''u1'') ''quiz2'' 0)))) = 2"
  by code_simp

section \<open>A failed insert\<close>

text \<open>
  Claim C7, as the code has it. When the insert in flight fails, the error is logged,
  \<open>onComplete\<close> is not called, no row is added and no new insert is sent; and
  \<open>submitting\<close> is cleared, so the screen shows the quiz again, with its answers, its
  position and its countdown, and with Submit Quiz enabled.
\<close>

theorem insert_failure_resets_submitting:
  assumes "completed s = None" and "in_flight s \<noteq> []"
  shows "console (step (now, InsertDone (Some e)) s) = console s @ [''Error submitting quiz:'']
     \<and> \<not> submitting (step (now, InsertDone (Some e)) s)
     \<and> completed (step (now, InsertDone (Some e)) s) = None
     \<and> table (step (now, InsertDone (Some e)) s) = table s
     \<and> issued (step (now, InsertDone (Some e)) s) = issued s
     \<and> in_flight (step (now, InsertDone (Some e)) s) = tl (in_flight s)
     \<and> questions (step (now, InsertDone (Some e)) s) = questions s
     \<and> answers (step (now, InsertDone (Some e)) s) = answers s
     \<and> currentQuestionIndex (step (now, InsertDone (Some e)) s) = currentQuestionIndex s
     \<and> timeLeft (step (now, InsertDone (Some e)) s) = timeLeft s"
  using assms by (cases "in_flight s") (simp_all add: step_def insert_resolved_def)

theorem insert_failure_resets_submitting_witness:
  "submitting (run short_start (mount (Some ''u1'') ''quiz2'' 0))
   \<and> console (run (short_start @ [(900, InsertDone (Some ''insert failed''))])
               (mount (Some ''u1'') ''quiz2'' 0)) = [''Error submitting quiz:'']
   \<and> length (issued (run (short_start @ [(900, InsertDone (Some ''insert failed''))])
               (mount (Some ''u1'') ''quiz2'' 0))) = 1
   \<and> in_flight (run (short_start @ [(900, InsertDone (Some ''insert failed''))])
               (mount (Some ''u1'') ''quiz2'' 0)) = []"
proof -
  let ?s = "run short_start (mount (Some ''u1'') ''quiz2'' 0)"
  have r: "run (short_start @ [(900, InsertDone (Some ''insert failed''))]) (mount (Some ''u1'') ''quiz2'' 0)
      = step (900, InsertDone (Some ''insert failed'')) ?s"
    by (simp add: short_start_def)
  have h: "completed ?s = None" "in_flight ?s \<noteq> []"
    by code_simp+
  have v: "submitting ?s" "console ?s = []" "length (issued ?s) = 1" "tl (in_flight ?s) = []"
    by code_simp+
  from insert_failure_resets_submitting [OF h, of 900 "''insert failed''"] v
  show ?thesis unfolding r by simp
qed

text \<open>
  The claim as stated, the screen remains in the submitting state, fails: \<open>submitting\<close>
  is set while the insert is in flight and cleared once it has failed.
\<close>

theorem insert_failure_counterexample:
  "submitting (run short_start (mount (Some ''u1'') ''quiz2'' 0))
   \<and> \<not> submitting (run (short_start @ [(900, InsertDone (Some ''insert failed''))])
                   (mount (Some ''u1'') ''quiz2'' 0))"
  by code_simp

section \<open>The results screen\<close>

text \<open>
  Claim C8, as the code has it. When one of the three queries of the results screen
  fails, the queries after it are not sent, none of title, questions and answers is set,
  the error is logged, and \<open>loading\<close> is cleared: the screen leaves its loading state
  and renders with what it had.
\<close>

theorem results_fetch_failure_ends_loading:
  assumes "isl quizResult \<or> isl questionsResult \<or> isl attemptResult"
  shows "\<not> loading_r (fetchQuizData_r quizResult questionsResult attemptResult v)
     \<and> console_r (fetchQuizData_r quizResult questionsResult attemptResult v)
         = console_r v @ [''Error fetching quiz data:'']
     \<and> quizTitle (fetchQuizData_r quizResult questionsResult attemptResult v) = quizTitle v
     \<and> questions_r (fetchQuizData_r quizResult questionsResult attemptResult v) = questions_r v
     \<and> userAnswers (fetchQuizData_r quizResult questionsResult attemptResult v) = userAnswers v
     \<and> queries_r (fetchQuizData_r quizResult questionsResult attemptResult v)
         = queries_r v @
            (if isl quizResult then [''quizzes'']
             else if isl questionsResult then [''quizzes'', ''questions'']
             else [''quizzes'', ''questions'', ''user_quiz_attempts''])"
  using assms
  by (cases quizResult; cases questionsResult; cases attemptResult)
     (simp_all add: fetchQuizData_r_def)

theorem results_fetch_failure_ends_loading_witness:
  "\<not> loading_r (fetchQuizData_r (Inr ''Demo'') (Inl ''timeout'') (Inr Map.empty) results_mount)
   \<and> queries_r (fetchQuizData_r (Inr ''Demo'') (Inl ''timeout'') (Inr Map.empty) results_mount)
       = [''quizzes'', ''questions'']
   \<and> quizTitle (fetchQuizData_r (Inr ''Demo'') (Inl ''timeout'') (Inr Map.empty) results_mount) = []"
  using results_fetch_failure_ends_loading
    [of "Inr ''Demo''" "Inl ''timeout''" "Inr Map.empty" results_mount]
  by (simp add: results_mount_def)

text \<open>
  The claim as stated, the screen is left loading, fails: \<open>loading\<close> is set at mount and
  cleared after the failure of the first query.
\<close>

theorem results_fetch_failure_counterexample:
  "loading_r results_mount
   \<and> \<not> loading_r (fetchQuizData_r (Inl ''network error'') (Inr []) (Inr Map.empty) results_mount)"
  by (simp add: results_mount_def fetchQuizData_r_def)

text \<open>
  The specification's scenario: 3 of 5 in 125 seconds shows 60, grade D, and 25 seconds
  per question. The grade follows the thresholds 90, 80, 70 and 60.
\<close>

lemma results_scenario_3_of_5:
  "scorePercentage 3 5 = Fin 60 \<and> grade (scorePercentage 3 5) = ''D''
   \<and> averagePerQuestion 125 5 = Fin 25"
  by code_simp

lemma grade_thresholds:
  "grade (Fin p) =
     (if 90 \<le> p then ''A'' else if 80 \<le> p then ''B'' else if 70 \<le> p then ''C''
      else if 60 \<le> p then ''D'' else ''F'')"
  by (simp add: grade_def)

text \<open>
  \<open>Math.round(timeTaken / totalQuestions)\<close> carries one rounding, and is the quotient
  rounded to the nearest integer (the larger one at a tie).
\<close>

lemma averagePerQuestion_exact:
  assumes a: "0 \<le> a" and a52: "a < 2 ^ 52" and b: "0 < b"
  shows "averagePerQuestion a b = Fin (of_int ((2 * a + b) div (2 * b)))"
proof -
  define x :: rat where "x = of_int a / of_int b"
  define R where "R = (2 * a + b) div (2 * b)"
  define r where "r = (2 * a + b) mod (2 * b)"
  have bpos: "(0::rat) < of_int b" using b by simp
  have x0: "0 \<le> x" using a bpos by (simp add: x_def)
  have p: "averagePerQuestion a b = Fin (of_int \<lfloor>fl x + 1 / 2\<rfloor>)"
    using b by (simp add: averagePerQuestion_def js_div_def x_def)
  have c: "2 * a + b = R * (2 * b) + r" by (simp only: R_def r_def div_mult_mod_eq)
  have r0: "0 \<le> r" and r1: "r \<le> 2 * b - 1"
    using pos_mod_sign [of "2 * b" "2 * a + b"] pos_mod_bound [of "2 * b" "2 * a + b"] b
    by (simp_all add: r_def)
  have "of_int (2 * a + b) / (2 * of_int b :: rat) = of_int (R * (2 * b) + r) / (2 * of_int b)"
    by (simp only: c)
  then have X: "x + 1 / 2 = of_int R + of_int r / (2 * of_int b)"
    using bpos by (simp add: x_def field_simps)
  have "\<lfloor>fl x + 1 / 2\<rfloor> = R"
  proof (cases "r = 0")
    case True
    with X have xr: "x = of_int (2 * R - 1) / 2" by simp
    from b have "1 \<le> b" by simp
    then have "(1::rat) \<le> of_int b" by (metis of_int_1 of_int_le_iff)
    then have "of_int a / of_int b \<le> (of_int a / 1 :: rat)"
      using a bpos by (intro divide_left_mono) simp_all
    then have "x \<le> of_int a" by (simp add: x_def)
    moreover have "(of_int a :: rat) < 2 ^ 52" using a52
      by (metis of_int_less_iff of_int_numeral of_int_power)
    ultimately have "of_int (2 * R - 1) < (2 ^ 53 :: rat)" using xr by simp
    then have "2 * R - 1 < 2 ^ 53"
      by (metis of_int_less_iff of_int_numeral of_int_power)
    moreover have "(0::rat) \<le> of_int (2 * R - 1)" using x0 xr by simp
    then have "0 \<le> 2 * R - 1" by (simp only: of_int_0_le_iff)
    ultimately have "\<bar>2 * R - 1\<bar> < 2 ^ 53" by simp
    from fl_half_int [OF this] have "fl x = x" by (simp only: xr)
    with X True show ?thesis by simp
  next
    case False
    with r0 have "1 \<le> r" by simp
    then have "(1 :: rat) \<le> of_int r" by (metis of_int_1 of_int_le_iff)
    then have rlo: "1 / (2 * of_int b) \<le> of_int r / (2 * of_int b :: rat)"
      using bpos by (intro divide_right_mono) simp_all
    have "(of_int r :: rat) \<le> of_int (2 * b - 1)" using r1 by (simp only: of_int_le_iff)
    then have "of_int r / (2 * of_int b :: rat) \<le> (2 * of_int b - 1) / (2 * of_int b)"
      using bpos by (intro divide_right_mono) simp_all
    also have "\<dots> = 1 - 1 / (2 * of_int b)" using bpos by (simp add: diff_divide_distrib)
    finally have rhi: "of_int r / (2 * of_int b :: rat) \<le> 1 - 1 / (2 * of_int b)" .
    have "(of_int a :: rat) < 2 ^ 52" using a52
      by (metis of_int_less_iff of_int_numeral of_int_power)
    then have "of_int a / 2 ^ 53 < (1 / 2 :: rat)" by simp
    then have "(of_int a / 2 ^ 53) / of_int b < (1 / 2 :: rat) / of_int b"
      using bpos by (rule divide_strict_right_mono)
    moreover have "\<bar>x\<bar> = x" using x0 by simp
    moreover have "x / 2 ^ 53 = (of_int a / 2 ^ 53) / of_int b"
      by (simp add: x_def)
    moreover have "(1 / 2 :: rat) / of_int b = 1 / (2 * of_int b)" by simp
    ultimately have "\<bar>x\<bar> / 2 ^ 53 < 1 / (2 * of_int b)" by simp
    with fl_error [of x] have err: "\<bar>fl x - x\<bar> < 1 / (2 * of_int b)" by simp
    have "of_int R \<le> fl x + 1 / 2" using err X rlo by linarith
    moreover have "fl x + 1 / 2 < of_int R + 1" using err X rhi by linarith
    ultimately show ?thesis by (simp add: floor_unique)
  qed
  then show ?thesis by (simp add: p R_def)
qed

text \<open>
  Claim C4. The displayed percentage is not \<open>round(100 \<times> s / t)\<close> for every score: 23
  of 40 is 57.5 percent, which rounds to 58, and the screen shows 57. The quotient
  \<open>23 / 40\<close> is rounded down to a double, and its product with 100 is rounded down again,
  to a double below 57.5.
\<close>

theorem results_percentage_23_of_40:
  "scorePercentage 23 40 = Fin 57 \<and> \<lfloor>(100 * 23 / 40 :: rat) + 1 / 2\<rfloor> = 58"
  by code_simp

section \<open>The dashboard\<close>

lemma foldl_add: "foldl (\<lambda>sum x. sum + f x) z xs = z + sum_list (map f xs)" for z :: int
  by (induction xs arbitrary: z) simp_all

lemma percent_finite: "b \<noteq> 0 \<Longrightarrow> \<exists>k. percent a b = Fin (of_int k)"
  by (simp add: percent_def js_div_def)

lemma fetchUserStats_counts:
  "attempts \<noteq> [] \<Longrightarrow>
   totalAttempts (userStats (fetchUserStats (Some u) (Inr attempts) d)) = int (length attempts)
   \<and> timeSpent (userStats (fetchUserStats (Some u) (Inr attempts) d))
       = sum_list (map time_taken_seconds attempts)
   \<and> quizAttempts (fetchUserStats (Some u) (Inr attempts) d) = attempts"
  by (simp add: fetchUserStats_def Let_def foldl_add)

lemma fetchUserStats_empty:
  "userStats (fetchUserStats (Some u) (Inr []) dashboard_mount)
     = \<lparr>totalAttempts = 0, averageScore = Fin 0, bestScore = Fin 0, timeSpent = 0\<rparr>"
  by (simp add: fetchUserStats_def dashboard_mount_def)

text \<open>
  Claim C3. Total attempts and time spent are the length and the sum (the two lemmas
  above), but average and best score are not the rounded percentages for every list: for
  the single attempt 23 of 40 both are 57, and \<open>round(100 \<times> 23 / 40)\<close> is 58.
\<close>

theorem dashboard_stats_23_of_40:
  "averageScore (userStats (fetchUserStats (Some ''u1'')
      (Inr [\<lparr>quiz_id = ''quiz1'', score = 23, total_questions = 40, time_taken_seconds = 1500\<rparr>])
      dashboard_mount)) = Fin 57
   \<and> bestScore (userStats (fetchUserStats (Some ''u1'')
      (Inr [\<lparr>quiz_id = ''quiz1'', score = 23, total_questions = 40, time_taken_seconds = 1500\<rparr>])
      dashboard_mount)) = Fin 57
   \<and> \<lfloor>(100 * 23 / 40 :: rat) + 1 / 2\<rfloor> = 58"
  by code_simp

text \<open>
  The per-quiz values of a quiz card: the specification's scenario (3 of 5 and 5 of 5 on
  one quiz give 2 attempts and a best score of 100), and the best score is \<open>undefined\<close>
  exactly when the list has no attempt of the quiz.
\<close>

lemma quiz_card_scenario:
  "getQuizAttempts
     (fetchUserStats (Some ''u1'')
       (Inr [\<lparr>quiz_id = ''quiz1'', score = 3, total_questions = 5, time_taken_seconds = 125\<rparr>,
             \<lparr>quiz_id = ''quiz1'', score = 5, total_questions = 5, time_taken_seconds = 90\<rparr>])
       dashboard_mount) ''quiz1'' = 2
   \<and> getBestScore
     (fetchUserStats (Some ''u1'')
       (Inr [\<lparr>quiz_id = ''quiz1'', score = 3, total_questions = 5, time_taken_seconds = 125\<rparr>,
             \<lparr>quiz_id = ''quiz1'', score = 5, total_questions = 5, time_taken_seconds = 90\<rparr>])
       dashboard_mount) ''quiz1'' = Some (Fin 100)"
  by code_simp

lemma getBestScore_undefined_iff:
  "getBestScore d q = None \<longleftrightarrow> (\<forall>a \<in> set (quizAttempts d). quiz_id a \<noteq> q)"
  by (auto simp: getBestScore_def Let_def filter_empty_conv)

text \<open>
  Claim C5. The best score of a quiz card is not the largest rounded percentage for
  every list: with the attempt 23 of 40 on the quiz it is 57, and
  \<open>round(100 \<times> 23 / 40)\<close> is 58.
\<close>

theorem quiz_card_best_score_23_of_40:
  "getBestScore
     (fetchUserStats (Some ''u1'')
       (Inr [\<lparr>quiz_id = ''quiz1'', score = 23, total_questions = 40, time_taken_seconds = 1500\<rparr>,
             \<lparr>quiz_id = ''quiz2'', score = 1, total_questions = 5, time_taken_seconds = 90\<rparr>])
       dashboard_mount) ''quiz1'' = Some (Fin 57)
   \<and> \<lfloor>(100 * 23 / 40 :: rat) + 1 / 2\<rfloor> = 58"
  by code_simp

text \<open>
  Claim C10. For a non-empty list of attempts the average score is a finite integer, and
  it is 0 when every attempt has \<open>total_questions = 0\<close>: the division is made only when
  the sum of \<open>total_questions\<close> is positive.
\<close>

theorem average_zero_without_questions:
  assumes "attempts \<noteq> []"
  shows "(\<exists>k. averageScore (userStats (fetchUserStats (Some u) (Inr attempts) d)) = Fin (of_int k))
     \<and> ((\<forall>a \<in> set attempts. total_questions a = 0) \<longrightarrow>
          averageScore (userStats (fetchUserStats (Some u) (Inr attempts) d)) = Fin 0)
     \<and> (sum_list (map total_questions attempts) \<le> 0 \<longrightarrow>
          averageScore (userStats (fetchUserStats (Some u) (Inr attempts) d)) = Fin 0)"
proof -
  let ?t = "sum_list (map total_questions attempts)"
  let ?s = "sum_list (map score attempts)"
  have avg: "averageScore (userStats (fetchUserStats (Some u) (Inr attempts) d))
      = (if 0 < ?t then percent ?s ?t else Fin 0)"
    using assms by (simp add: fetchUserStats_def Let_def foldl_add)
  have z: "(\<forall>a \<in> set attempts. total_questions a = 0) \<longrightarrow> ?t = 0"
    by (induction attempts) simp_all
  have f: "\<exists>k. (if 0 < ?t then percent ?s ?t else Fin 0) = Fin (of_int k)"
  proof (cases "0 < ?t")
    case True
    then show ?thesis using percent_finite [of ?t ?s] by simp
  next
    case False
    then show ?thesis by (simp add: exI [of _ 0])
  qed
  from avg z f show ?thesis by auto
qed

theorem average_zero_without_questions_witness:
  "averageScore (userStats (fetchUserStats (Some ''u1'')
      (Inr [\<lparr>quiz_id = ''quiz1'', score = 0, total_questions = 0, time_taken_seconds = 1200\<rparr>,
            \<lparr>quiz_id = ''quiz1'', score = 0, total_questions = 0, time_taken_seconds = 60\<rparr>])
      dashboard_mount)) = Fin 0"
  using average_zero_without_questions
    [of "[\<lparr>quiz_id = ''quiz1'', score = 0, total_questions = 0, time_taken_seconds = 1200\<rparr>,
          \<lparr>quiz_id = ''quiz1'', score = 0, total_questions = 0, time_taken_seconds = 60\<rparr>]"
        "''u1''" dashboard_mount]
  by simp

end
